theory Spec2Isabelle
  imports Complex_Main "HOL-Library.Log_Nat"
begin

section \<open>JavaScript numbers: binary64 rounding\<close>

text \<open>
  The estimator is JavaScript, and every number in it is an IEEE-754 binary64 value. A
  finite double is a rational number, so finite numbers are modelled as rationals, and
  every arithmetic operation rounds its exact result to the nearest double, a tie going to
  the even significand, as \<open>*\<close> and \<open>+\<close> do. A decimal literal such as \<open>0.70\<close> is the
  double nearest to it.

  Two things are left out. The exponent range is not bounded: magnitudes above about
  \<open>1.8e308\<close> or below about \<open>2.2e-308\<close> would overflow to an infinity or lose precision
  in the program, and are rounded to 53 significant bits here. The negative zero is not
  distinguished from zero.
\<close>

text \<open>Rounding a rational to the nearest integer, a tie going to the even one.\<close>

definition rne :: "rat \<Rightarrow> int" where
  "rne y =
     (let f = \<lfloor>y\<rfloor>; d = y - of_int f
      in if d < 1 / 2 then f else if 1 / 2 < d then f + 1
         else if even f then f else f + 1)"

text \<open>
  The binary exponent of a positive rational \<open>y\<close>: the integer \<open>e\<close> with
  \<open>2^e \<le> y < 2^(e+1)\<close>, read off the bit length of the integer part of \<open>y\<close> or of its
  inverse.
\<close>

definition expo :: "rat \<Rightarrow> int" where
  "expo y = (if 1 \<le> y then bitlen \<lfloor>y\<rfloor> - 1 else - bitlen (\<lceil>1 / y\<rceil> - 1))"

text \<open>
  The double nearest to \<open>x\<close>: the significand \<open>\<bar>x\<bar> / 2^(e-52)\<close>, which lies between
  \<open>2^52\<close> and \<open>2^53\<close>, is rounded to an integer.
\<close>

definition binary64 :: "rat \<Rightarrow> rat" where
  "binary64 x =
     (if x = 0 then 0
      else let s = 2 powi (expo \<bar>x\<bar> - 52)
           in sgn x * of_int (rne (\<bar>x\<bar> / s)) * s)"

section \<open>JavaScript values used by the savings calculator\<close>

text \<open>
  Reading a property of an object yields a number when the object owns the key, a value
  inherited from \<open>Object.prototype\<close> when the key names one of its members (a function,
  or the prototype object itself for \<open>__proto__\<close>), and \<open>undefined\<close> otherwise. The one
  non-finite number the calculator can produce from finite inputs in range, \<open>NaN\<close>, is a
  value of its own.
\<close>

datatype jsval = Undefined | Number rat | Object

datatype jsnum = Num rat | NaN

text \<open>\<open>ToNumber\<close>: \<open>undefined\<close>, a function and a plain object all convert to \<open>NaN\<close>.\<close>

fun ToNumber :: "jsval \<Rightarrow> jsnum" where
  "ToNumber Undefined = NaN"
| "ToNumber (Number r) = Num r"
| "ToNumber Object = NaN"

text \<open>
  The operators \<open>*\<close> and \<open>+\<close> on numbers: the exact product or sum, rounded to a double;
  \<open>NaN\<close> absorbs.
\<close>

fun js_mul :: "jsnum \<Rightarrow> jsnum \<Rightarrow> jsnum" where
  "js_mul (Num a) (Num b) = Num (binary64 (a * b))"
| "js_mul _ _ = NaN"

fun js_add :: "jsnum \<Rightarrow> jsnum \<Rightarrow> jsnum" where
  "js_add (Num a) (Num b) = Num (binary64 (a + b))"
| "js_add _ _ = NaN"

text \<open>The comparison \<open>>=\<close> on numbers: false as soon as one side is \<open>NaN\<close>.\<close>

fun js_ge :: "jsnum \<Rightarrow> jsnum \<Rightarrow> bool" where
  "js_ge (Num a) (Num b) = (b \<le> a)"
| "js_ge _ _ = False"

text \<open>
  \<open>Math.round\<close>: the nearest integer, a tie going towards plus infinity;
  \<open>Math.round(NaN)\<close> is \<open>NaN\<close>. The result is computed on the exact value of the
  double and is itself a double (a double of magnitude \<open>2^52\<close> or more is whole).
\<close>

fun Math_round :: "jsnum \<Rightarrow> jsnum" where
  "Math_round (Num a) = Num (of_int \<lfloor>a + 1 / 2\<rfloor>)"
| "Math_round NaN = NaN"

text \<open>\<open>a ?? b\<close> is \<open>b\<close> only when \<open>a\<close> is \<open>undefined\<close> (or \<open>null\<close>).\<close>

fun nullish :: "jsval \<Rightarrow> jsval \<Rightarrow> jsval" where
  "nullish Undefined b = b"
| "nullish a b = a"

text \<open>\<open>a || b\<close> is \<open>b\<close> when \<open>a\<close> is falsy: \<open>undefined\<close> or the number zero here.\<close>

fun ToBoolean :: "jsval \<Rightarrow> bool" where
  "ToBoolean Undefined = False"
| "ToBoolean (Number r) = (r \<noteq> 0)"
| "ToBoolean Object = True"

definition logical_or :: "jsval \<Rightarrow> jsval \<Rightarrow> jsval" where
  "logical_or a b = (if ToBoolean a then a else b)"

text \<open>
  The string-keyed members of \<open>Object.prototype\<close> in a browser, which every object
  literal inherits.
\<close>

definition Object_prototype :: "string list" where
  "Object_prototype =
     [''constructor'', ''hasOwnProperty'', ''isPrototypeOf'', ''propertyIsEnumerable'',
      ''toLocaleString'', ''toString'', ''valueOf'', ''__proto__'',
      ''__defineGetter__'', ''__defineSetter__'', ''__lookupGetter__'', ''__lookupSetter__'']"

text \<open>\<open>obj[key]\<close> for an object literal \<open>obj\<close> whose own properties are numbers.\<close>

definition get_property :: "(string \<times> rat) list \<Rightarrow> string \<Rightarrow> jsval" where
  "get_property obj k =
     (case map_of obj k of
        Some v \<Rightarrow> Number v
      | None \<Rightarrow> if k \<in> set Object_prototype then Object else Undefined)"

section \<open>Configuration: unit savings per product\<close>

text \<open>\<open>js/config.js\<close>, the table \<open>productSavings\<close>, imported as \<open>productSavingsConfig\<close>.\<close>

definition productSavingsConfig :: "(string \<times> rat) list" where
  "productSavingsConfig =
     [(''tshirt'', 7), (''hoodie'', 12), (''crewneck'', 10), (''manteau'', 50),
      (''mancheLongue'', 10), (''hoodieZipper'', 20), (''tuque'', 10),
      (''casquetteBrodee'', 10)]"

text \<open>The older \<open>main.js\<close> carries its own copy, \<open>economieUnitaire\<close>.\<close>

definition economieUnitaire :: "(string \<times> rat) list" where
  "economieUnitaire =
     [(''tshirt'', 7), (''hoodie'', 12), (''crewneck'', 10), (''manteau'', 50),
      (''mancheLongue'', 10), (''hoodieZipper'', 20), (''tuque'', 10),
      (''casquetteBrodee'', 10)]"

text \<open>
  \<open>const ADMIN_TIME_REDUCTION_RATE = 0.70\<close>: the double nearest to seven tenths, which
  is \<open>3152519739159347 / 2^52\<close>, a little below \<open>7/10\<close>.
\<close>

definition ADMIN_TIME_REDUCTION_RATE :: jsnum where
  "ADMIN_TIME_REDUCTION_RATE = Num (binary64 (7 / 10))"

section \<open>The two calculators\<close>

text \<open>
  The parameter object of both functions. The four numbers are finite doubles (the form
  validators reject \<open>NaN\<close> before the call); the selection is any list of strings.
\<close>

record params =
  nbEmployes :: rat
  tauxHoraire :: rat
  heuresMensuelles :: rat
  frequence :: rat
  articlesSelectionnes :: "string list"

record savings =
  adminSavings :: jsnum
  productSavings :: jsnum
  totalSavings :: jsnum

record economies =
  economiesAdmin :: jsnum
  economiesProduits :: jsnum
  totalEconomies :: jsnum

text \<open>
  \<open>js/model.js\<close>, \<open>calculateSavings\<close>. The callback of \<open>reduce\<close> is \<open>reducer\<close>;
  \<open>reduce\<close> with the initial value \<open>0\<close> is a left fold.
\<close>

definition reducer :: "rat \<Rightarrow> jsnum \<Rightarrow> string \<Rightarrow> jsnum" where
  "reducer nb tot productId =
     (let unitaire = nullish (get_property productSavingsConfig productId) (Number 0)
      in js_add tot (js_mul (ToNumber unitaire) (Num nb)))"

definition calculateSavings :: "params \<Rightarrow> savings" where
  "calculateSavings p =
     (let coutAdminAnnuel = js_mul (js_mul (Num (heuresMensuelles p)) (Num (tauxHoraire p))) (Num 12);
          admin = js_mul coutAdminAnnuel ADMIN_TIME_REDUCTION_RATE;
          produits = js_mul (foldl (reducer (nbEmployes p)) (Num 0) (articlesSelectionnes p))
                            (Num (frequence p));
          tot = js_add admin produits
      in \<lparr>adminSavings = admin, productSavings = produits, totalSavings = tot\<rparr>)"

text \<open>
  The older \<open>main.js\<close>, \<open>calculerEconomies\<close>: the same steps with \<open>||\<close> for the
  default, the literal \<open>0.70\<close> and \<open>Math.round\<close> on each returned field.
\<close>

definition reducteur :: "rat \<Rightarrow> jsnum \<Rightarrow> string \<Rightarrow> jsnum" where
  "reducteur nb tot article =
     (let unitaire = logical_or (get_property economieUnitaire article) (Number 0)
      in js_add tot (js_mul (ToNumber unitaire) (Num nb)))"

definition calculerEconomies :: "params \<Rightarrow> economies" where
  "calculerEconomies p =
     (let coutAdmin = js_mul (js_mul (Num (heuresMensuelles p)) (Num (tauxHoraire p))) (Num 12);
          admin = js_mul coutAdmin (Num (binary64 (7 / 10)));
          produits = js_mul (foldl (reducteur (nbEmployes p)) (Num 0) (articlesSelectionnes p))
                            (Num (frequence p));
          tot = js_add admin produits
      in \<lparr>economiesAdmin = Math_round admin,
          economiesProduits = Math_round produits,
          totalEconomies = Math_round tot\<rparr>)"

section \<open>Notions used to state the properties\<close>

text \<open>
  The number that the callback of \<open>calculateSavings\<close> multiplies by \<open>nbEmployes\<close> for one
  selected identifier: the looked-up value after \<open>?? 0\<close>, converted by \<open>*\<close>.
\<close>

definition unit_value :: "string \<Rightarrow> jsnum" where
  "unit_value productId =
     ToNumber (nullish (get_property productSavingsConfig productId) (Number 0))"

text \<open>
  The specification's reading of the product part, in its own words: the unit savings of
  an identifier is its entry in the Product Savings Table and \<open>0\<close> if it has none, and
  product savings is the sum of the unit savings over the selection, times the employee
  count, times the annual frequency.
\<close>

definition spec_unitSavings :: "string \<Rightarrow> rat" where
  "spec_unitSavings productId =
     (case map_of productSavingsConfig productId of Some v \<Rightarrow> v | None \<Rightarrow> 0)"

definition spec_productSavings :: "params \<Rightarrow> rat" where
  "spec_productSavings p =
     sum_list (map spec_unitSavings (articlesSelectionnes p)) * nbEmployes p * frequence p"

text \<open>Whole numbers, and the values \<open>Math.round\<close> can return.\<close>

definition is_whole :: "rat \<Rightarrow> bool" where
  "is_whole r = (of_int \<lfloor>r\<rfloor> = r)"

fun whole_or_NaN :: "jsnum \<Rightarrow> bool" where
  "whole_or_NaN (Num r) = is_whole r"
| "whole_or_NaN NaN = True"

text \<open>Twice a JavaScript number, without rounding (doubling a double is exact).\<close>

fun twice :: "jsnum \<Rightarrow> jsnum" where
  "twice (Num a) = Num (2 * a)"
| "twice NaN = NaN"

section \<open>Properties of the rounding\<close>

lemma floor_rat_numeral: "\<lfloor>numeral a / numeral b :: rat\<rfloor> = numeral a div numeral b"
  by (metis floor_divide_of_int_eq of_int_numeral)

lemma ceiling_rat_numeral: "\<lceil>numeral a / numeral b :: rat\<rceil> = - ((- numeral a) div numeral b)"
  by (metis ceiling_divide_eq_div of_int_numeral)


lemma bitlen_ge_one: "1 \<le> n \<Longrightarrow> 1 \<le> bitlen n"
  using bitlen_eq_zero_iff [of n] bitlen_nonneg [of n] by linarith

lemma expo_lower:
  assumes "0 < y"
  shows "2 powi expo y \<le> y"
proof (cases "1 \<le> y")
  case True
  define n where "n = \<lfloor>y\<rfloor>"
  have n1: "1 \<le> n" using True by (simp add: n_def)
  then have "2 ^ nat (bitlen n - 1) \<le> n" using bitlen_bounds [of n] by simp
  then have "(of_int (2 ^ nat (bitlen n - 1)) :: rat) \<le> of_int n"
    by (simp only: of_int_le_iff)
  also have "\<dots> \<le> y" by (simp add: n_def)
  finally have "(2::rat) ^ nat (bitlen n - 1) \<le> y" by simp
  moreover have "0 \<le> bitlen n - 1" using bitlen_ge_one [OF n1] by simp
  ultimately show ?thesis
    using True by (simp add: expo_def n_def power_int_nonneg_exp)
next
  case False
  define m where "m = \<lceil>1 / y\<rceil> - 1"
  define k where "k = bitlen m"
  have z: "1 < 1 / y" using False assms by simp
  then have "1 < \<lceil>1 / y\<rceil>" by (simp only: less_ceiling_iff of_int_1)
  then have m1: "1 \<le> m" by (simp add: m_def)
  then have "m < 2 ^ nat k" using bitlen_bounds [of m] by (simp add: k_def)
  then have "m + 1 \<le> 2 ^ nat k" by simp
  then have "(of_int (m + 1) :: rat) \<le> of_int (2 ^ nat k)"
    by (simp only: of_int_le_iff)
  moreover have "1 / y \<le> of_int (m + 1)" by (simp add: m_def)
  ultimately have "1 / y \<le> 2 ^ nat k" by simp
  moreover have k0: "0 \<le> k" by (simp add: k_def bitlen_nonneg)
  ultimately have "1 / y \<le> 2 powi k" by (simp add: power_int_nonneg_exp)
  then have "1 / 2 powi k \<le> y"
    using assms by (simp add: field_simps)
  then show ?thesis
    using False by (simp add: expo_def m_def k_def power_int_minus_divide)
qed

lemma expo_upper:
  assumes "0 < y"
  shows "y < 2 powi (expo y + 1)"
proof (cases "1 \<le> y")
  case True
  define n where "n = \<lfloor>y\<rfloor>"
  have n1: "1 \<le> n" using True by (simp add: n_def)
  then have "n < 2 ^ nat (bitlen n)" using bitlen_bounds [of n] by simp
  then have "n + 1 \<le> 2 ^ nat (bitlen n)" by simp
  then have "(of_int (n + 1) :: rat) \<le> of_int (2 ^ nat (bitlen n))"
    by (simp only: of_int_le_iff)
  moreover have "y < of_int (n + 1)" unfolding n_def using floor_correct [of y] by simp
  ultimately have "y < 2 ^ nat (bitlen n)" by simp
  moreover have "0 \<le> bitlen n" by (rule bitlen_nonneg)
  ultimately show ?thesis
    using True by (simp add: expo_def n_def power_int_nonneg_exp)
next
  case False
  define m where "m = \<lceil>1 / y\<rceil> - 1"
  define k where "k = bitlen m"
  have z: "1 < 1 / y" using False assms by simp
  then have "1 < \<lceil>1 / y\<rceil>" by (simp only: less_ceiling_iff of_int_1)
  then have m1: "1 \<le> m" by (simp add: m_def)
  then have "2 ^ nat (k - 1) \<le> m" using bitlen_bounds [of m] by (simp add: k_def)
  then have "(of_int (2 ^ nat (k - 1)) :: rat) \<le> of_int m"
    by (simp only: of_int_le_iff)
  also have "of_int m < 1 / y"
    unfolding m_def using ceiling_correct [of "1 / y"] by simp
  finally have "2 ^ nat (k - 1) < 1 / y" by simp
  moreover have k1: "0 \<le> k - 1" using bitlen_ge_one [OF m1] by (simp add: k_def)
  ultimately have "2 powi (k - 1) < 1 / y" by (simp add: power_int_nonneg_exp)
  then have "y < 1 / 2 powi (k - 1)"
    using assms by (simp add: field_simps)
  also have "\<dots> = 2 powi (- k + 1)"
    using power_int_minus_divide [of "2::rat" "k - 1"] by simp
  finally show ?thesis
    using False by (simp add: expo_def m_def k_def)
qed

lemma expo_unique:
  assumes "0 < y" "2 powi e \<le> y" "y < 2 powi (e + 1)"
  shows "expo y = e"
proof (rule antisym)
  have "(2::rat) powi expo y < 2 powi (e + 1)"
    using expo_lower [OF assms(1)] assms(3) by simp
  then have "\<not> e + 1 \<le> expo y"
    using power_int_increasing [of "e + 1" "expo y" "2::rat"] by auto
  then show "expo y \<le> e" by simp
  have "(2::rat) powi e < 2 powi (expo y + 1)"
    using expo_upper [OF assms(1)] assms(2) by simp
  then have "\<not> expo y + 1 \<le> e"
    using power_int_increasing [of "expo y + 1" e "2::rat"] by auto
  then show "e \<le> expo y" by simp
qed

lemma expo_double: "0 < y \<Longrightarrow> expo (2 * y) = expo y + 1"
proof (rule expo_unique)
  assume y: "0 < y"
  show "0 < 2 * y" using y by simp
  have "(2::rat) powi (expo y + 1) = 2 * 2 powi expo y"
    by (simp add: power_int_add)
  then show "2 powi (expo y + 1) \<le> 2 * y" using expo_lower [OF y] by simp
  have "(2::rat) powi (expo y + 1 + 1) = 2 * 2 powi (expo y + 1)"
    by (simp add: power_int_add)
  then show "2 * y < 2 powi (expo y + 1 + 1)" using expo_upper [OF y] by simp
qed

lemma binary64_zero: "binary64 0 = 0"
  by (simp add: binary64_def)

lemma binary64_double: "binary64 (2 * x) = 2 * binary64 x"
proof (cases "x = 0")
  case True
  then show ?thesis by (simp add: binary64_def)
next
  case False
  then have pos: "0 < \<bar>x\<bar>" by simp
  have e: "expo (2 * \<bar>x\<bar>) = expo \<bar>x\<bar> + 1"
    by (rule expo_double [OF pos])
  have s: "(2::rat) powi (expo \<bar>x\<bar> - 51) = 2 * 2 powi (expo \<bar>x\<bar> - 52)"
    using power_int_add [of "2::rat" "expo \<bar>x\<bar> - 52" 1] by (simp add: algebra_simps)
  show ?thesis
    using False by (simp add: binary64_def Let_def e s abs_mult sgn_mult)
qed

lemma rne_of_int: "rne (of_int k) = k"
  by (simp add: rne_def)

lemma rne_whole: "y \<in> \<int> \<Longrightarrow> of_int (rne y) = y"
  by (auto elim!: Ints_cases simp: rne_of_int)

text \<open>A number whose quotient by its own unit in the last place is whole is a double.\<close>

lemma binary64_fixed:
  assumes "x \<noteq> 0" "\<bar>x\<bar> / 2 powi (expo \<bar>x\<bar> - 52) \<in> \<int>"
  shows "binary64 x = x"
proof -
  have "sgn x * \<bar>x\<bar> = x" by (simp add: sgn_mult_abs)
  then show ?thesis
    using assms by (simp add: binary64_def Let_def rne_whole mult.assoc)
qed

lemma powi_Ints: "0 \<le> j \<Longrightarrow> (2::rat) powi j \<in> \<int>"
  by (simp add: power_int_nonneg_exp)

lemma binary64_dyadic:
  assumes "\<bar>k\<bar> \<le> 2 ^ 53"
  shows "binary64 (of_int k * 2 powi j) = of_int k * 2 powi j"
proof (cases "k = 0")
  case True
  then show ?thesis by (simp add: binary64_def)
next
  case False
  define x :: rat where "x = of_int k * 2 powi j"
  define e where "e = expo \<bar>x\<bar>"
  have x0: "x \<noteq> 0" using False by (simp add: x_def)
  have ax: "\<bar>x\<bar> = of_int \<bar>k\<bar> * 2 powi j" by (simp add: x_def abs_mult)
  have "(of_int \<bar>k\<bar> :: rat) \<le> of_int (2 ^ 53)" using assms by (simp only: of_int_le_iff)
  then have kb: "(of_int \<bar>k\<bar> :: rat) \<le> 2 powi 53" by simp
  have "2 powi e \<le> \<bar>x\<bar>" using expo_lower [of "\<bar>x\<bar>"] x0 by (simp add: e_def)
  also have "\<dots> \<le> 2 powi 53 * 2 powi j" unfolding ax using kb by (intro mult_right_mono) simp_all
  also have "\<dots> = 2 powi (53 + j)" by (simp add: power_int_add)
  finally have "\<not> 53 + j < e"
    using power_int_strict_increasing [of "53 + j" e "2::rat"] by auto
  then have ej: "e - 52 \<le> j + 1" by simp
  have "\<bar>x\<bar> / 2 powi (e - 52) \<in> \<int>"
  proof (cases "e - 52 \<le> j")
    case True
    have "\<bar>x\<bar> / 2 powi (e - 52) = of_int \<bar>k\<bar> * 2 powi (j - (e - 52))"
      unfolding ax by (simp add: power_int_diff)
    moreover have "(2::rat) powi (j - (e - 52)) \<in> \<int>" using True by (intro powi_Ints) simp
    ultimately show ?thesis by simp
  next
    case False
    with ej have eq: "e = j + 53" by simp
    have "2 powi (j + 53) \<le> \<bar>x\<bar>" using expo_lower [of "\<bar>x\<bar>"] x0 by (simp add: e_def [symmetric] eq)
    then have "(2::rat) powi 53 * 2 powi j \<le> of_int \<bar>k\<bar> * 2 powi j"
      unfolding ax by (simp add: power_int_add mult.commute)
    then have "(2::rat) powi 53 \<le> of_int \<bar>k\<bar>" by simp
    with kb have "(of_int \<bar>k\<bar> :: rat) = 2 powi 53" by simp
    then have "\<bar>x\<bar> / 2 powi (e - 52) = 2 powi 53 * 2 powi j / 2 powi (j + 1)"
      unfolding ax eq by (simp add: add.commute)
    also have "\<dots> = 2 powi 52"
      by (simp add: power_int_add add.commute)
    finally show ?thesis by simp
  qed
  then show ?thesis
    using binary64_fixed [OF x0] by (simp add: e_def x_def)
qed

lemma binary64_whole:
  assumes "x \<in> \<int>" "\<bar>x\<bar> \<le> 2 ^ 53"
  shows "binary64 x = x"
proof -
  from assms(1) obtain k where k: "x = of_int k" by (auto elim: Ints_cases)
  have "(of_int \<bar>k\<bar> :: rat) \<le> of_int (2 ^ 53)" using assms(2) by (simp add: k)
  then have "\<bar>k\<bar> \<le> 2 ^ 53" by (simp only: of_int_le_iff)
  from binary64_dyadic [OF this, of 0] show ?thesis by (simp add: k)
qed

lemma rne_bounds: "\<lfloor>y\<rfloor> \<le> rne y \<and> rne y \<le> \<lfloor>y\<rfloor> + 1"
  by (simp add: rne_def Let_def)

text \<open>The result of the rounding is a double: rounding it again changes nothing.\<close>

lemma binary64_idem: "binary64 (binary64 x) = binary64 x"
proof (cases "x = 0")
  case True
  then show ?thesis by (simp add: binary64_def)
next
  case False
  define e where "e = expo \<bar>x\<bar>"
  define m where "m = \<bar>x\<bar> / 2 powi (e - 52)"
  define k where "k = rne m"
  have pos: "0 < \<bar>x\<bar>" using False by simp
  have "0 \<le> m" by (simp add: m_def)
  then have "0 \<le> \<lfloor>m\<rfloor>" by simp
  then have k0: "0 \<le> k" using rne_bounds [of m] unfolding k_def by linarith
  have "\<bar>x\<bar> < 2 powi (e + 1)" using expo_upper [OF pos] by (simp add: e_def)
  also have "(2::rat) powi (e + 1) = 2 powi 53 * 2 powi (e - 52)"
    using power_int_add [of "2::rat" 53 "e - 52"] by (simp add: add.commute)
  finally have "m < 2 powi 53" by (simp add: m_def field_simps)
  then have "m < of_int (2 ^ 53)" by simp
  then have "\<lfloor>m\<rfloor> < 2 ^ 53" by (simp only: floor_less_iff)
  then have "k \<le> 2 ^ 53" using rne_bounds [of m] unfolding k_def by linarith
  have "binary64 x = of_int ((if 0 < x then 1 else - 1) * k) * 2 powi (e - 52)"
    using False by (simp add: binary64_def Let_def e_def m_def k_def sgn_if)
  moreover have "\<bar>(if 0 < x then 1 else - 1) * k\<bar> \<le> 2 ^ 53"
    using k0 \<open>k \<le> 2 ^ 53\<close> by (simp add: abs_mult)
  ultimately show ?thesis
    using binary64_dyadic [of "(if 0 < x then 1 else - 1) * k" "e - 52"] by simp
qed

section \<open>Arithmetic of JavaScript numbers\<close>

lemma js_add_zero_left: "js_add (Num 0) (js_mul a b) = js_mul a b"
  by (cases a; cases b) (simp_all add: binary64_idem)

lemma twice_js_mul_right: "js_mul a (Num (2 * r)) = twice (js_mul a (Num r))"
proof (cases a)
  case (Num x)
  have "x * (2 * r) = 2 * (x * r)" by simp
  then show ?thesis
    using Num by (simp only: js_mul.simps twice.simps binary64_double)
qed simp

lemma twice_js_mul_left: "js_mul (twice a) b = twice (js_mul a b)"
proof (cases a; cases b)
  fix x y assume "a = Num x" "b = Num y"
  moreover have "2 * x * y = 2 * (x * y)" by simp
  ultimately show ?thesis
    by (simp only: js_mul.simps twice.simps binary64_double)
qed simp_all

lemma twice_js_add: "js_add (twice a) (twice b) = twice (js_add a b)"
proof (cases a; cases b)
  fix x y assume "a = Num x" "b = Num y"
  moreover have "2 * x + 2 * y = 2 * (x + y)" by simp
  ultimately show ?thesis
    by (simp only: js_add.simps twice.simps binary64_double)
qed simp_all

lemma js_mul_two: "js_mul (Num 2) (js_mul a b) = twice (js_mul a b)"
  by (cases a; cases b) (simp_all add: binary64_double binary64_idem)

lemma is_whole_Ints: "is_whole r \<longleftrightarrow> r \<in> \<int>"
  unfolding is_whole_def by (metis Ints_of_int floor_of_int Ints_cases)

lemma whole_or_NaN_Math_round: "whole_or_NaN (Math_round a)"
  by (cases a) (simp_all add: is_whole_def)

text \<open>A whole number of magnitude at most \<open>2^53\<close> is a double.\<close>

lemma binary64_is_whole: "is_whole x \<Longrightarrow> 0 \<le> x \<Longrightarrow> x \<le> 2 ^ 53 \<Longrightarrow> binary64 x = x"
  by (rule binary64_whole) (simp_all add: is_whole_Ints)

lemmas binary64_eval =
  binary64_def expo_def rne_def Let_def floor_rat_numeral ceiling_rat_numeral compute_bitlen
  power_int_minus

section \<open>The table and the lookup\<close>

lemma config_values:
  "map_of productSavingsConfig a = Some v \<Longrightarrow> v \<in> {7, 10, 12, 20, 50}"
  by (auto simp: productSavingsConfig_def split: if_splits)





lemma unit_value_plain:
  "a \<notin> set Object_prototype \<Longrightarrow> unit_value a = Num (spec_unitSavings a)"
  by (simp add: unit_value_def get_property_def spec_unitSavings_def split: option.splits)

lemma spec_unitSavings_range:
  "is_whole (spec_unitSavings a) \<and> 0 \<le> spec_unitSavings a \<and> spec_unitSavings a \<le> 50"
proof (cases "map_of productSavingsConfig a")
  case None
  then show ?thesis by (simp add: spec_unitSavings_def is_whole_def)
next
  case (Some v)
  from config_values [OF Some] show ?thesis
    using Some by (auto simp: spec_unitSavings_def is_whole_def)
qed

lemma sum_spec_unitSavings:
  "is_whole (sum_list (map spec_unitSavings xs)) \<and> 0 \<le> sum_list (map spec_unitSavings xs)"
  using spec_unitSavings_range
  by (induction xs) (auto simp: is_whole_Ints intro: add_nonneg_nonneg)

text \<open>\<open>|| 0\<close> and \<open>?? 0\<close> agree: the only falsy number is the default itself.\<close>

lemma logical_or_zero: "logical_or v (Number 0) = nullish v (Number 0)"
  by (cases v) (simp_all add: logical_or_def)

lemma reducteur_reducer: "reducteur nb = reducer nb"
  by (intro ext)
     (simp add: reducteur_def reducer_def logical_or_zero economieUnitaire_def
        productSavingsConfig_def)

section \<open>The fold and the returned fields\<close>

lemma reducer_unit_value:
  "reducer nb tot productId = js_add tot (js_mul (unit_value productId) (Num nb))"
  by (simp add: reducer_def unit_value_def)

lemma productSavings_fold:
  "productSavings (calculateSavings p) =
     js_mul (foldl (reducer (nbEmployes p)) (Num 0) (articlesSelectionnes p)) (Num (frequence p))"
  by (simp add: calculateSavings_def Let_def)

lemma adminSavings_value:
  "adminSavings (calculateSavings p) =
     js_mul (js_mul (js_mul (Num (heuresMensuelles p)) (Num (tauxHoraire p))) (Num 12))
            (Num (binary64 (7 / 10)))"
  by (simp add: calculateSavings_def Let_def ADMIN_TIME_REDUCTION_RATE_def)

lemma totalSavings_sum:
  "totalSavings (calculateSavings p) =
     js_add (adminSavings (calculateSavings p)) (productSavings (calculateSavings p))"
  by (simp add: calculateSavings_def Let_def)

lemma calculerEconomies_fields:
  "economiesAdmin (calculerEconomies p) = Math_round (adminSavings (calculateSavings p))"
  "economiesProduits (calculerEconomies p) = Math_round (productSavings (calculateSavings p))"
  "totalEconomies (calculerEconomies p) = Math_round (totalSavings (calculateSavings p))"
  by (simp_all add: calculerEconomies_def calculateSavings_def Let_def reducteur_reducer
        ADMIN_TIME_REDUCTION_RATE_def)

text \<open>Doubling the employee count doubles every step of the fold.\<close>

lemma reducer_twice: "reducer (2 * nb) (twice acc) a = twice (reducer nb acc a)"
  by (simp add: reducer_unit_value twice_js_mul_right twice_js_add)

lemma foldl_reducer_twice:
  "foldl (reducer (2 * nb)) (twice acc) xs = twice (foldl (reducer nb) acc xs)"
proof (induction xs arbitrary: acc)
  case Nil
  show ?case by simp
next
  case (Cons x xs)
  have "foldl (reducer (2 * nb)) (twice acc) (x # xs) =
          foldl (reducer (2 * nb)) (twice (reducer nb acc x)) xs"
    by (simp add: reducer_twice)
  also have "\<dots> = twice (foldl (reducer nb) (reducer nb acc x) xs)"
    by (rule Cons.IH)
  finally show ?case by simp
qed



text \<open>
  On a selection that names no inherited member, with a whole, non-negative employee
  count, the fold is exact as long as the running amount stays within \<open>2^53\<close>.
\<close>

lemma foldl_reducer_exact:
  assumes "is_whole nb" "0 \<le> nb" "set xs \<inter> set Object_prototype = {}"
    and "is_whole c" "0 \<le> c"
    and "c + sum_list (map spec_unitSavings xs) * nb \<le> 2 ^ 53"
  shows "foldl (reducer nb) (Num c) xs = Num (c + sum_list (map spec_unitSavings xs) * nb)"
  using assms(3-6)
proof (induction xs arbitrary: c)
  case Nil
  show ?case by simp
next
  case (Cons x xs)
  let ?u = "spec_unitSavings x"
  let ?r = "sum_list (map spec_unitSavings xs)"
  have u: "is_whole ?u" "0 \<le> ?u" using spec_unitSavings_range [of x] by simp_all
  have r: "0 \<le> ?r" using sum_spec_unitSavings [of xs] by simp
  have x: "x \<notin> set Object_prototype" and xs: "set xs \<inter> set Object_prototype = {}"
    using Cons.prems(1) by auto
  have un: "is_whole (?u * nb)" "0 \<le> ?u * nb"
    using u assms(1,2) by (simp_all add: is_whole_Ints)
  have rn: "0 \<le> ?r * nb" using r assms(2) by simp
  have bound: "c + ?u * nb + ?r * nb \<le> 2 ^ 53"
    using Cons.prems(4) by (simp add: algebra_simps)
  have "?u * nb \<le> 2 ^ 53" using bound rn Cons.prems(3) by linarith
  then have b1: "binary64 (?u * nb) = ?u * nb"
    using un by (intro binary64_is_whole)
  have c': "is_whole (c + ?u * nb)" "0 \<le> c + ?u * nb"
    using un Cons.prems(2,3) by (simp_all add: is_whole_Ints)
  have "c + ?u * nb \<le> 2 ^ 53" using bound rn by linarith
  then have b2: "binary64 (c + ?u * nb) = c + ?u * nb"
    using c' by (intro binary64_is_whole)
  have step: "reducer nb (Num c) x = Num (c + ?u * nb)"
    by (simp add: reducer_unit_value unit_value_plain [OF x] b1 b2)
  have "foldl (reducer nb) (Num c) (x # xs) = foldl (reducer nb) (Num (c + ?u * nb)) xs"
    by (simp add: step)
  also have "\<dots> = Num (c + ?u * nb + ?r * nb)"
    using Cons.IH [OF xs c' bound] .
  finally show ?case by (simp add: algebra_simps)
qed

text \<open>
  So, for such a selection, a whole, non-negative employee count and frequency, and
  amounts within \<open>2^53\<close>, the code computes exactly the specification's product savings.
\<close>

lemma productSavings_exact:
  assumes "set (articlesSelectionnes p) \<inter> set Object_prototype = {}"
    and "is_whole (nbEmployes p)" "0 \<le> nbEmployes p"
    and "is_whole (frequence p)" "0 \<le> frequence p"
    and "sum_list (map spec_unitSavings (articlesSelectionnes p)) * nbEmployes p \<le> 2 ^ 53"
    and "spec_productSavings p \<le> 2 ^ 53"
  shows "productSavings (calculateSavings p) = Num (spec_productSavings p)"
proof -
  let ?s = "sum_list (map spec_unitSavings (articlesSelectionnes p))"
  have "foldl (reducer (nbEmployes p)) (Num 0) (articlesSelectionnes p)
          = Num (0 + ?s * nbEmployes p)"
  proof (rule foldl_reducer_exact)
    show "0 + ?s * nbEmployes p \<le> 2 ^ 53" using assms(6) by simp
  qed (use assms(1-3) in \<open>simp_all add: is_whole_def\<close>)
  moreover have "is_whole (?s * nbEmployes p * frequence p)"
    using sum_spec_unitSavings [of "articlesSelectionnes p"] assms(2,4)
    by (simp add: is_whole_Ints)
  moreover have "0 \<le> ?s * nbEmployes p * frequence p"
    using sum_spec_unitSavings [of "articlesSelectionnes p"] assms(3,5) by simp
  ultimately show ?thesis
    using assms(7)
    by (simp add: productSavings_fold spec_productSavings_def binary64_is_whole)
qed

text \<open>
  Under the same conditions, one more identifier that names no inherited member never
  lowers product savings.
\<close>

lemma productSavings_monotone_exact:
  assumes "set (articlesSelectionnes p @ [a]) \<inter> set Object_prototype = {}"
    and "is_whole (nbEmployes p)" "0 \<le> nbEmployes p"
    and "is_whole (frequence p)" "0 \<le> frequence p"
    and "sum_list (map spec_unitSavings (articlesSelectionnes p @ [a])) * nbEmployes p \<le> 2 ^ 53"
    and "sum_list (map spec_unitSavings (articlesSelectionnes p @ [a])) * nbEmployes p
           * frequence p \<le> 2 ^ 53"
  shows "js_ge (productSavings (calculateSavings
                  (p\<lparr>articlesSelectionnes := articlesSelectionnes p @ [a]\<rparr>)))
               (productSavings (calculateSavings p))"
proof -
  let ?q = "p\<lparr>articlesSelectionnes := articlesSelectionnes p @ [a]\<rparr>"
  let ?s = "sum_list (map spec_unitSavings (articlesSelectionnes p))"
  let ?u = "spec_unitSavings a"
  have u: "0 \<le> ?u" using spec_unitSavings_range [of a] by simp
  have s: "0 \<le> ?s" using sum_spec_unitSavings [of "articlesSelectionnes p"] by simp
  have un: "0 \<le> ?u * nbEmployes p" using u assms(3) by simp
  then have unf: "0 \<le> ?u * nbEmployes p * frequence p" using assms(5) by simp
  have bn: "?s * nbEmployes p + ?u * nbEmployes p \<le> 2 ^ 53"
    using assms(6) by (simp add: algebra_simps)
  have bf: "?s * nbEmployes p * frequence p + ?u * nbEmployes p * frequence p \<le> 2 ^ 53"
    using assms(7) by (simp add: algebra_simps)
  have q: "productSavings (calculateSavings ?q) = Num (spec_productSavings ?q)"
    using assms by (intro productSavings_exact) (simp_all add: spec_productSavings_def)
  have "?s * nbEmployes p \<le> 2 ^ 53" using bn un by linarith
  moreover have "?s * nbEmployes p * frequence p \<le> 2 ^ 53" using bf unf by linarith
  ultimately have p: "productSavings (calculateSavings p) = Num (spec_productSavings p)"
    using assms(1-5) by (intro productSavings_exact) (auto simp: spec_productSavings_def)
  have "spec_productSavings ?q = spec_productSavings p + ?u * nbEmployes p * frequence p"
    by (simp add: spec_productSavings_def algebra_simps)
  then have "spec_productSavings p \<le> spec_productSavings ?q" using unf by simp
  then show ?thesis unfolding p q by simp
qed

section \<open>The total is the sum of the two parts\<close>

text \<open>
  C1, as stated, fails for \<open>calculerEconomies\<close>: it rounds the three fields separately.
  With 1 employee, 15 dollars an hour, a quarter of an hour a month, one order a year and
  the t-shirt, the administrative savings \<open>45 * 0.70\<close> is the double
  \<open>31.499999999999996\<close>, returned as 31; the product savings is 7; and their sum is the
  double \<open>38.5\<close>, returned as 39, which is not \<open>31 + 7\<close>.
\<close>

theorem calculerEconomies_total_not_sum:
  "totalEconomies (calculerEconomies \<lparr>nbEmployes = 1, tauxHoraire = 15, heuresMensuelles = 1 / 4,
       frequence = 1, articlesSelectionnes = [''tshirt'']\<rparr>)
   \<noteq> js_add
       (economiesAdmin (calculerEconomies \<lparr>nbEmployes = 1, tauxHoraire = 15,
          heuresMensuelles = 1 / 4, frequence = 1, articlesSelectionnes = [''tshirt'']\<rparr>))
       (economiesProduits (calculerEconomies \<lparr>nbEmployes = 1, tauxHoraire = 15,
          heuresMensuelles = 1 / 4, frequence = 1, articlesSelectionnes = [''tshirt'']\<rparr>))"
  by (simp add: calculerEconomies_def reducteur_def get_property_def economieUnitaire_def
        logical_or_def binary64_eval)

text \<open>
  The three fields at that input, as the program returns them.
\<close>

lemma calculerEconomies_quarter_hour:
  "calculerEconomies \<lparr>nbEmployes = 1, tauxHoraire = 15, heuresMensuelles = 1 / 4,
       frequence = 1, articlesSelectionnes = [''tshirt'']\<rparr>
   = \<lparr>economiesAdmin = Num 31, economiesProduits = Num 7, totalEconomies = Num 39\<rparr>"
  by (simp add: calculerEconomies_def reducteur_def get_property_def economieUnitaire_def
        logical_or_def binary64_eval)

text \<open>
  C1, amended: for every input the total returned by \<open>calculateSavings\<close> is the sum
  (the JavaScript \<open>+\<close>) of the administrative and the product savings it returns. The
  total returned by \<open>calculerEconomies\<close> is \<open>Math.round\<close> of that unrounded sum, not
  the sum of its two rounded fields.
\<close>

theorem total_is_sum_of_parts:
  "totalSavings (calculateSavings p) =
     js_add (adminSavings (calculateSavings p)) (productSavings (calculateSavings p))
   \<and> totalEconomies (calculerEconomies p) =
     Math_round (js_add (adminSavings (calculateSavings p))
                        (productSavings (calculateSavings p)))"
  by (simp add: calculerEconomies_fields totalSavings_sum)

section \<open>Administrative savings\<close>

text \<open>
  C2: the \<open>adminSavings\<close> field returned by \<open>calculateSavings\<close> is the value of the
  JavaScript expression \<open>monthlyHours * hourlyRate * 12 * 0.70\<close>: three multiplications
  from the left, each rounded to a double, the last by the double \<open>0.70\<close>. It holds for
  every input, so in particular when the monthly hours and the hourly rate are not negative.
\<close>

theorem adminSavings_formula:
  "adminSavings (calculateSavings p) =
     js_mul (js_mul (js_mul (Num (heuresMensuelles p)) (Num (tauxHoraire p))) (Num 12))
            (Num (binary64 (7 / 10)))"
  by (simp add: calculateSavings_def Let_def ADMIN_TIME_REDUCTION_RATE_def)

text \<open>
  For two hours a month at 30 dollars this is the double \<open>503.99999999999994\<close>, not 504.
\<close>

lemma adminSavings_two_hours:
  "binary64 (7 / 10) = 3152519739159347 / 4503599627370496
   \<and> adminSavings (calculateSavings \<lparr>nbEmployes = 1, tauxHoraire = 30, heuresMensuelles = 2,
        frequence = 1, articlesSelectionnes = []\<rparr>) = Num (8866461766385663 / 17592186044416)"
  by (simp add: calculateSavings_def ADMIN_TIME_REDUCTION_RATE_def binary64_eval)

section \<open>Product savings and identifiers that the table does not have\<close>

text \<open>
  C3 asks that an identifier absent from the table contributes \<open>0\<close>. The identifier
  \<open>toString\<close> is absent from the table, and the specification's product savings for the
  selection holding it alone is \<open>0\<close>; but \<open>productSavingsConfig["toString"]\<close> is the
  function inherited from \<open>Object.prototype\<close>, which \<open>?? 0\<close> keeps and \<open>*\<close> turns into
  \<open>NaN\<close>, so the code returns \<open>NaN\<close>. (On selections that name no inherited member
  the code does compute the specification's value for whole employee counts and
  frequencies: \<open>productSavings_exact\<close>.)
\<close>

theorem inherited_key_productSavings_NaN:
  "productSavings (calculateSavings \<lparr>nbEmployes = 1, tauxHoraire = 0, heuresMensuelles = 0,
       frequence = 1, articlesSelectionnes = [''toString'']\<rparr>) = NaN
   \<and> map_of productSavingsConfig ''toString'' = None
   \<and> spec_productSavings \<lparr>nbEmployes = 1, tauxHoraire = 0, heuresMensuelles = 0,
       frequence = 1, articlesSelectionnes = [''toString'']\<rparr> = 0"
  by (simp add: calculateSavings_def Let_def reducer_def get_property_def
        productSavingsConfig_def Object_prototype_def spec_productSavings_def
        spec_unitSavings_def)

section \<open>Rounding to whole dollars\<close>

text \<open>
  C4, as stated, fails for \<open>calculerEconomies\<close>: with one hour a month at 1 dollar the
  administrative savings \<open>12 * 0.70\<close> is the double \<open>8.399999999999999\<close>, and the
  function returns 8.
\<close>

theorem calculerEconomies_returns_rounded:
  "economiesAdmin (calculerEconomies \<lparr>nbEmployes = 1, tauxHoraire = 1, heuresMensuelles = 1,
       frequence = 1, articlesSelectionnes = [''tshirt'']\<rparr>) = Num 8
   \<and> js_mul (js_mul (js_mul (Num 1) (Num 1)) (Num 12)) (Num (binary64 (7 / 10)))
       = Num (1182194902184755 / 140737488355328)"
  by (simp add: calculerEconomies_def binary64_eval)

text \<open>
  C4, amended: \<open>calculateSavings\<close> returns the three values as the double arithmetic
  computes them, with no rounding to whole numbers; \<open>calculerEconomies\<close> returns each of
  the same three values through \<open>Math.round\<close>, so each of its fields is a whole number or
  \<open>NaN\<close>, and its administrative field is always a whole number.
\<close>

theorem exact_fields_and_rounded_fields:
  "adminSavings (calculateSavings p) =
       js_mul (js_mul (js_mul (Num (heuresMensuelles p)) (Num (tauxHoraire p))) (Num 12))
              (Num (binary64 (7 / 10)))
   \<and> productSavings (calculateSavings p) =
       js_mul (foldl (reducer (nbEmployes p)) (Num 0) (articlesSelectionnes p))
              (Num (frequence p))
   \<and> totalSavings (calculateSavings p) =
       js_add (adminSavings (calculateSavings p)) (productSavings (calculateSavings p))
   \<and> economiesAdmin (calculerEconomies p) = Math_round (adminSavings (calculateSavings p))
   \<and> economiesProduits (calculerEconomies p) =
       Math_round (productSavings (calculateSavings p))
   \<and> totalEconomies (calculerEconomies p) = Math_round (totalSavings (calculateSavings p))
   \<and> whole_or_NaN (economiesAdmin (calculerEconomies p))
   \<and> whole_or_NaN (economiesProduits (calculerEconomies p))
   \<and> whole_or_NaN (totalEconomies (calculerEconomies p))
   \<and> (\<exists>k. economiesAdmin (calculerEconomies p) = Num (of_int k))"
proof (intro conjI)
  show "whole_or_NaN (economiesAdmin (calculerEconomies p))"
    by (simp only: calculerEconomies_fields whole_or_NaN_Math_round)
  show "whole_or_NaN (economiesProduits (calculerEconomies p))"
    by (simp only: calculerEconomies_fields whole_or_NaN_Math_round)
  show "whole_or_NaN (totalEconomies (calculerEconomies p))"
    by (simp only: calculerEconomies_fields whole_or_NaN_Math_round)
  show "\<exists>k. economiesAdmin (calculerEconomies p) = Num (of_int k)"
    by (simp add: calculerEconomies_fields adminSavings_value)
qed (simp_all only: calculerEconomies_fields totalSavings_sum adminSavings_value
       productSavings_fold)

section \<open>The older and the newer calculator\<close>

text \<open>
  C5, as stated, fails: with one hour a month at 1 dollar the older function returns the
  administrative savings 8 and the newer one \<open>8.399999999999999\<close>.
\<close>

theorem calculators_differ:
  "economiesAdmin (calculerEconomies \<lparr>nbEmployes = 1, tauxHoraire = 1, heuresMensuelles = 1,
       frequence = 1, articlesSelectionnes = [''tshirt'']\<rparr>)
   \<noteq> adminSavings (calculateSavings \<lparr>nbEmployes = 1, tauxHoraire = 1, heuresMensuelles = 1,
       frequence = 1, articlesSelectionnes = [''tshirt'']\<rparr>)"
  by (simp add: calculerEconomies_def calculateSavings_def ADMIN_TIME_REDUCTION_RATE_def
        binary64_eval)

text \<open>
  C5, amended: for every input, each field returned by \<open>calculerEconomies\<close> is
  \<open>Math.round\<close> of the corresponding field returned by \<open>calculateSavings\<close>
  (administrative, product and total savings); the two tables and the two defaults
  (\<open>|| 0\<close>, \<open>?? 0\<close>) make no difference.
\<close>

theorem calculerEconomies_rounds_calculateSavings:
  "calculerEconomies p =
     \<lparr>economiesAdmin = Math_round (adminSavings (calculateSavings p)),
      economiesProduits = Math_round (productSavings (calculateSavings p)),
      totalEconomies = Math_round (totalSavings (calculateSavings p))\<rparr>"
  by (simp add: calculerEconomies_def calculateSavings_def Let_def reducteur_reducer
        ADMIN_TIME_REDUCTION_RATE_def)

section \<open>Scaling, duplicates, the empty selection\<close>

text \<open>
  C6: with the selection and the frequency fixed, twice the employee count gives twice the
  product savings; with the selection and the employee count fixed, twice the frequency
  gives twice the product savings; and the administrative savings returned by
  \<open>calculateSavings\<close> is the same whatever the employee count and the selection. Doubling
  is exact in binary arithmetic, so the rounding of each step does not disturb it.
\<close>

theorem productSavings_scaling:
  "productSavings (calculateSavings (p\<lparr>nbEmployes := 2 * nbEmployes p\<rparr>)) =
     js_mul (Num 2) (productSavings (calculateSavings p))
   \<and> productSavings (calculateSavings (p\<lparr>frequence := 2 * frequence p\<rparr>)) =
     js_mul (Num 2) (productSavings (calculateSavings p))
   \<and> adminSavings (calculateSavings (p\<lparr>nbEmployes := n, articlesSelectionnes := xs\<rparr>)) =
     adminSavings (calculateSavings p)"
proof (intro conjI)
  have zero: "Num 0 = twice (Num 0)" by simp
  have "foldl (reducer (2 * nbEmployes p)) (Num 0) (articlesSelectionnes p) =
          twice (foldl (reducer (nbEmployes p)) (Num 0) (articlesSelectionnes p))"
    by (subst zero) (rule foldl_reducer_twice)
  then show "productSavings (calculateSavings (p\<lparr>nbEmployes := 2 * nbEmployes p\<rparr>)) =
     js_mul (Num 2) (productSavings (calculateSavings p))"
    by (simp add: productSavings_fold twice_js_mul_left js_mul_two)
  show "productSavings (calculateSavings (p\<lparr>frequence := 2 * frequence p\<rparr>)) =
     js_mul (Num 2) (productSavings (calculateSavings p))"
    by (simp add: productSavings_fold twice_js_mul_right js_mul_two)
  show "adminSavings (calculateSavings (p\<lparr>nbEmployes := n, articlesSelectionnes := xs\<rparr>)) =
     adminSavings (calculateSavings p)"
    by (simp add: adminSavings_value)
qed




text \<open>
  C8: with an empty selection \<open>calculateSavings\<close> returns the product savings \<open>0\<close>,
  whatever the other fields; the function is total, so nothing is raised.
\<close>

theorem empty_selection_zero:
  "productSavings (calculateSavings (p\<lparr>articlesSelectionnes := []\<rparr>)) = Num 0"
  by (simp add: calculateSavings_def Let_def binary64_zero)

section \<open>The worked example\<close>

text \<open>
  C9: 10 employees, 20 dollars an hour, 5 hours a month, 4 orders a year, t-shirt (7) and
  hoodie (12): administrative savings 840 (the product \<open>1200 * 0.70\<close> rounds to the
  double 840), product savings 760, total 1600.
\<close>

theorem concrete_scenario:
  "calculateSavings \<lparr>nbEmployes = 10, tauxHoraire = 20, heuresMensuelles = 5, frequence = 4,
      articlesSelectionnes = [''tshirt'', ''hoodie'']\<rparr>
   = \<lparr>adminSavings = Num 840, productSavings = Num 760, totalSavings = Num 1600\<rparr>"
  by (simp add: calculateSavings_def reducer_def get_property_def productSavingsConfig_def
        ADMIN_TIME_REDUCTION_RATE_def binary64_eval)

section \<open>One more identifier\<close>

text \<open>
  C10 asks that one more identifier never lowers product savings. With one employee and
  one order a year, the t-shirt alone gives 7; adding the identifier \<open>toString\<close> gives
  \<open>NaN\<close>, and \<open>NaN >= 7\<close> is false. The cause is the inherited member of C3. (For
  identifiers that name no inherited member the property holds on whole employee counts
  and frequencies: \<open>productSavings_monotone_exact\<close>.)
\<close>

theorem adding_inherited_key_loses_productSavings:
  "productSavings (calculateSavings \<lparr>nbEmployes = 1, tauxHoraire = 0, heuresMensuelles = 0,
       frequence = 1, articlesSelectionnes = [''tshirt'']\<rparr>) = Num 7
   \<and> productSavings (calculateSavings \<lparr>nbEmployes = 1, tauxHoraire = 0, heuresMensuelles = 0,
       frequence = 1, articlesSelectionnes = [''tshirt''] @ [''toString'']\<rparr>) = NaN
   \<and> js_ge NaN (Num 7) = False"
  by (simp add: calculateSavings_def reducer_def get_property_def productSavingsConfig_def
        Object_prototype_def binary64_eval)

end
